theory Spec2Isabelle
  imports Main "HOL-Library.AList" "HOL-Library.Multiset" "HOL-Library.Product_Lexorder"
begin

section \<open>CAPIbara: route matching, template resolution and request dispatch\<close>

text \<open>
  The development embeds the template engine (\<^verbatim>\<open>template-engine.js\<close>), the helpers of
  \<^verbatim>\<open>utils.js\<close> and the router (\<^verbatim>\<open>router.js\<close>) of CAPIbara.  Conventions:
  \<^item> a JavaScript string is a list of code units below 256 (\<^typ>\<open>string\<close>);
  \<^item> \<^verbatim>\<open>undefined\<close> is \<open>None\<close> of an option type, a thrown exception is \<open>Inl\<close> of a sum,
    and a handler that throws gives its request no response;
  \<^item> of the two loggers the calls of the debug logger are kept, for the exception they can
    raise; what is logged is not modelled;
  \<^item> an object is the list of its own entries in the order of \<^verbatim>\<open>Object.entries\<close>,
    with distinct keys; properties inherited from a prototype are not modelled;
  \<^item> a number is an exact decimal: mantissa and number of fraction digits.  It prints as
    JavaScript prints the double of that value while the value has at most 15 significant
    digits and a magnitude within \<open>[1e-6, 1e21)\<close>.
\<close>

subsection \<open>Values\<close>

datatype json =
    JNull
  | JBool bool
  | JNum int nat
  | JStr string
  | JArr "json list"
  | JObj "(string \<times> json) list"

text \<open>What is thrown, and \<^verbatim>\<open>error.message\<close> as V8 words it.\<close>

datatype exn = SyntaxError string | TypeError string | Error string

fun message :: "exn \<Rightarrow> string" where
  "message (SyntaxError source) =
     ''Invalid regular expression: /'' @ source @ ''/: Nothing to repeat''"
| "message (TypeError m) = m"
| "message (Error m) = m"

text \<open>One statement after another: what the first one throws, the second never sees.\<close>

definition and_then :: "exn + 'a \<Rightarrow> ('a \<Rightarrow> exn + 'b) \<Rightarrow> exn + 'b" where
  "and_then x f = (case x of Inl e \<Rightarrow> Inl e | Inr v \<Rightarrow> f v)"

text \<open>\<^verbatim>\<open>obj[key] = v\<close> on an object made by \<^verbatim>\<open>{}\<close>: a key that is there keeps its place, and
  the key \<^verbatim>\<open>__proto__\<close> names the setter of the prototype and adds no entry.\<close>

definition assign :: "string \<Rightarrow> json \<Rightarrow> (string \<times> json) list \<Rightarrow> (string \<times> json) list" where
  "assign k v obj = (if k = ''__proto__'' then obj else AList.update k v obj)"

subsection \<open>Characters and strings\<close>

text \<open>The class \<^verbatim>\<open>\s\<close> of regular expressions, which is also what \<^verbatim>\<open>trim\<close> removes.\<close>

definition is_ws :: "char \<Rightarrow> bool" where
  "is_ws c = (c \<in> set [CHR 0x09, CHR 0x0A, CHR 0x0B, CHR 0x0C, CHR 0x0D, CHR '' '', CHR 0xA0])"

text \<open>Line terminators: the characters that \<^verbatim>\<open>.\<close> does not match.\<close>

definition is_lt :: "char \<Rightarrow> bool" where
  "is_lt c = (c = CHR 0x0A \<or> c = CHR 0x0D)"

text \<open>The class \<^verbatim>\<open>\d\<close>.\<close>

definition is_digit :: "char \<Rightarrow> bool" where
  "is_digit c = (c \<in> set ''0123456789'')"

definition trim :: "string \<Rightarrow> string" where
  "trim s = rev (dropWhile is_ws (rev (dropWhile is_ws s)))"

fun startsWith :: "string \<Rightarrow> string \<Rightarrow> bool" where
  "startsWith s [] = True"
| "startsWith [] (p # ps) = False"
| "startsWith (c # cs) (p # ps) = (c = p \<and> startsWith cs ps)"

definition endsWith :: "string \<Rightarrow> string \<Rightarrow> bool" where
  "endsWith s p = startsWith (rev s) (rev p)"

fun str_includes :: "string \<Rightarrow> string \<Rightarrow> bool" where
  "str_includes [] p = (p = [])"
| "str_includes (c # cs) p = (startsWith (c # cs) p \<or> str_includes cs p)"

text \<open>\<^verbatim>\<open>s.split(d)\<close> for a separator of one character.\<close>

fun split :: "char \<Rightarrow> string \<Rightarrow> string list" where
  "split d [] = [[]]"
| "split d (c # cs) =
     (if c = d then [] # split d cs
      else (case split d cs of [] \<Rightarrow> [[c]] | p # ps \<Rightarrow> (c # p) # ps))"

text \<open>\<^verbatim>\<open>xs.join(sep)\<close> on strings.\<close>

fun join :: "string \<Rightarrow> string list \<Rightarrow> string" where
  "join sep [] = []"
| "join sep [x] = x"
| "join sep (x # y # ys) = x @ sep @ join sep (y # ys)"

subsection \<open>Numbers and their decimal form\<close>

definition digit_char :: "nat \<Rightarrow> char" where
  "digit_char d = ''0123456789'' ! (d mod 10)"

text \<open>The value of a digit: digits follow each other from code 48 on.\<close>

definition digit_val :: "char \<Rightarrow> nat" where
  "digit_val c = of_char c - 48"

fun digits :: "nat \<Rightarrow> string" where
  "digits n = (if n < 10 then [digit_char n] else digits (n div 10) @ [digit_char (n mod 10)])"

declare digits.simps [simp del]

text \<open>The value of the decimal digits of \<^verbatim>\<open>parseInt(part, 10)\<close>.\<close>

definition parseInt :: "string \<Rightarrow> nat" where
  "parseInt s = foldl (\<lambda>a c. 10 * a + digit_val c) 0 s"

text \<open>The fraction digits of a number with \<open>e\<close> fraction digits, trailing zeros removed.\<close>

definition fraction_digits :: "nat \<Rightarrow> nat \<Rightarrow> string" where
  "fraction_digits e f =
     (let ds = digits f; padded = replicate (e - length ds) (CHR ''0'') @ ds
      in rev (dropWhile (\<lambda>c. c = CHR ''0'') (rev padded)))"

text \<open>\<^verbatim>\<open>String(n)\<close> for a number.\<close>

definition numToString :: "int \<Rightarrow> nat \<Rightarrow> string" where
  "numToString m e =
     (let a = nat \<bar>m\<bar>; fs = fraction_digits e (a mod 10 ^ e)
      in (if m < 0 then ''-'' else '''') @ digits (a div 10 ^ e)
         @ (if e = 0 \<or> fs = [] then [] else ''.'' @ fs))"

text \<open>The test \<^verbatim>\<open>/^-?\d+(\.\d+)?$/\<close> of a fallback literal.\<close>

definition is_numeric :: "string \<Rightarrow> bool" where
  "is_numeric s =
     (let u = (if startsWith s ''-'' then tl s else s);
          ip = takeWhile is_digit u; r = dropWhile is_digit u
      in ip \<noteq> [] \<and> (r = [] \<or> (startsWith r ''.'' \<and> tl r \<noteq> [] \<and> list_all is_digit (tl r))))"

text \<open>\<^verbatim>\<open>parseFloat\<close> on a literal that passed the test above.\<close>

definition parseFloat :: "string \<Rightarrow> json" where
  "parseFloat s =
     (let neg = startsWith s ''-''; u = (if neg then tl s else s);
          ip = takeWhile is_digit u; fr = takeWhile is_digit (tl (dropWhile is_digit u));
          a = int (parseInt (ip @ fr))
      in JNum (if neg then - a else a) (length fr))"

subsection \<open>Conversion to string\<close>

text \<open>\<^verbatim>\<open>String(value)\<close>: an array joins its elements with commas, \<^verbatim>\<open>null\<close> elements
  printing as nothing; an object prints as \<^verbatim>\<open>[object Object]\<close>.\<close>

fun js_String :: "json \<Rightarrow> string"
  and js_String_elems :: "json list \<Rightarrow> string list" where
  "js_String JNull = ''null''"
| "js_String (JBool b) = (if b then ''true'' else ''false'')"
| "js_String (JNum m e) = numToString m e"
| "js_String (JStr s) = s"
| "js_String (JArr xs) = join '','' (js_String_elems xs)"
| "js_String (JObj kvs) = ''[object Object]''"
| "js_String_elems [] = []"
| "js_String_elems (x # xs) = (if x = JNull then [] else js_String x) # js_String_elems xs"

subsection \<open>Template engine: path resolution\<close>

definition all_digits :: "string \<Rightarrow> bool" where
  "all_digits s = (s \<noteq> [] \<and> list_all is_digit s)"

definition index :: "json list \<Rightarrow> nat \<Rightarrow> json option" where
  "index xs i = (if i < length xs then Some (xs ! i) else None)"

text \<open>The loop of \<^verbatim>\<open>getValueByPath\<close> over the parts of the path: \<open>None\<close> is
  \<^verbatim>\<open>undefined\<close>.  An array read at a part that is not a number has its \<^verbatim>\<open>length\<close> and
  nothing else; an index behind the end reads \<^verbatim>\<open>undefined\<close>.\<close>

fun walk :: "string list \<Rightarrow> json option \<Rightarrow> json option" where
  "walk [] current = current"
| "walk (part # parts) current =
     (case current of
        None \<Rightarrow> None
      | Some JNull \<Rightarrow> None
      | Some (JArr xs) \<Rightarrow>
          (if all_digits part then walk parts (index xs (parseInt part))
           else walk parts (if part = ''length'' then Some (JNum (int (length xs)) 0) else None))
      | Some (JObj kvs) \<Rightarrow> walk parts (map_of kvs part)
      | Some _ \<Rightarrow> None)"

definition getValueByPath :: "string \<Rightarrow> json \<Rightarrow> json option" where
  "getValueByPath path context = walk (split (CHR ''.'') path) (Some context)"

subsection \<open>Template engine: fallback values and token expressions\<close>

definition quoted :: "string \<Rightarrow> bool" where
  "quoted f = ((startsWith f [CHR 0x27] \<and> endsWith f [CHR 0x27])
             \<or> (startsWith f [CHR 0x22] \<and> endsWith f [CHR 0x22]))"

definition processFallbackValue :: "string \<Rightarrow> json \<Rightarrow> json option" where
  "processFallbackValue fallbackValue context =
     (if quoted fallbackValue then Some (JStr (butlast (tl fallbackValue)))
      else if fallbackValue = ''null'' then Some JNull
      else if fallbackValue = ''true'' then Some (JBool True)
      else if fallbackValue = ''false'' then Some (JBool False)
      else if is_numeric fallbackValue then Some (parseFloat fallbackValue)
      else getValueByPath fallbackValue context)"

text \<open>The match of \<^verbatim>\<open>/^(.+?)\s*\|\|\s*(.+)$/\<close>.  \<open>group2\<close> matches \<^verbatim>\<open>\s*(.+)$\<close> and
  returns the second group: the white space is greedy but gives characters back until the
  group is not empty.  \<open>match_rest\<close> matches everything after the first group.
  \<open>lazy_main\<close> extends the first group by one character at a time.\<close>

definition group2 :: "string \<Rightarrow> string option" where
  "group2 r =
     (let g = dropWhile is_ws r
      in if g \<noteq> [] then (if list_ex is_lt g then None else Some g)
         else if r = [] \<or> is_lt (last r) then None else Some [last r])"

definition match_rest :: "string \<Rightarrow> string option" where
  "match_rest r =
     (let t = dropWhile is_ws r in if startsWith t ''||'' then group2 (drop 2 t) else None)"

fun lazy_main :: "string \<Rightarrow> string \<Rightarrow> (string \<times> string) option" where
  "lazy_main pre [] = None"
| "lazy_main pre (c # cs) =
     (if is_lt c then None
      else (case match_rest cs of
              Some g \<Rightarrow> Some (pre @ [c], g)
            | None \<Rightarrow> lazy_main (pre @ [c]) cs))"

definition fallbackMatch :: "string \<Rightarrow> (string \<times> string) option" where
  "fallbackMatch expression = lazy_main [] expression"

definition MISSING_VALUE :: string where
  "MISSING_VALUE = ''__MISSING_VALUE__''"

definition resolveTokenExpression :: "string \<Rightarrow> json \<Rightarrow> string" where
  "resolveTokenExpression expression context =
     (case fallbackMatch expression of
        Some (mainPath, fallbackValue) \<Rightarrow>
          (case getValueByPath (trim mainPath) context of
             Some mainValue \<Rightarrow> js_String mainValue
           | None \<Rightarrow>
               (case processFallbackValue (trim fallbackValue) context of
                  Some fallback \<Rightarrow> js_String fallback
                | None \<Rightarrow> MISSING_VALUE))
      | None \<Rightarrow>
          (case getValueByPath expression context of
             Some v \<Rightarrow> js_String v
           | None \<Rightarrow> MISSING_VALUE))"

subsection \<open>Template engine: tokens in a string\<close>

text \<open>A match of \<^verbatim>\<open>/\{\{([^}]+)\}\}/\<close> at the start of a string: the expression and the
  text after the match.\<close>

definition match_token :: "string \<Rightarrow> (string \<times> string) option" where
  "match_token s =
     (if startsWith s ''{{'' then
        (let r = drop 2 s;
             e = takeWhile (\<lambda>c. c \<noteq> CHR ''}'') r;
             t = dropWhile (\<lambda>c. c \<noteq> CHR ''}'') r
         in if e \<noteq> [] \<and> startsWith t ''}}'' then Some (e, drop 2 t) else None)
      else None)"

datatype segment = Text char | Token string

text \<open>The global scan of \<^verbatim>\<open>str.replace(tokenRegex, ...)\<close>: matches are looked for from left to
  right and the scan resumes behind each match.\<close>

function scan :: "string \<Rightarrow> segment list" where
  "scan [] = []"
| "scan (c # cs) =
     (case match_token (c # cs) of
        Some (e, rest) \<Rightarrow> Token e # scan rest
      | None \<Rightarrow> Text c # scan cs)"
  by pat_completeness auto
termination
proof (relation "measure length")
  show "wf (measure length)" by simp
next
  fix c :: char and cs x e rest
  assume a: "match_token (c # cs) = Some x" "(e, rest) = x"
  let ?s = "c # cs"
  have "length (dropWhile (\<lambda>c. c \<noteq> CHR ''}'') (drop 2 ?s)) \<le> length (drop 2 ?s)"
    by (rule length_dropWhile_le)
  moreover from a have "rest = drop 2 (dropWhile (\<lambda>c. c \<noteq> CHR ''}'') (drop 2 ?s))"
    by (auto simp: match_token_def Let_def split: if_splits)
  ultimately show "(rest, c # cs) \<in> measure length" by auto
next
  fix c :: char and cs
  show "(cs, c # cs) \<in> measure length" by simp
qed

fun is_Token :: "segment \<Rightarrow> bool" where
  "is_Token (Token e) = True"
| "is_Token (Text c) = False"

fun replacement :: "json \<Rightarrow> segment \<Rightarrow> string" where
  "replacement context (Text c) = [c]"
| "replacement context (Token e) = resolveTokenExpression (trim e) context"

definition resolveStringTokens :: "string \<Rightarrow> json \<Rightarrow> string option" where
  "resolveStringTokens str context =
     (let segs = scan str;
          hasTokens = list_ex is_Token segs;
          resolved = concat (map (replacement context) segs)
      in if \<not> hasTokens then Some str
         else if str_includes resolved MISSING_VALUE then None
         else Some resolved)"

subsection \<open>Template engine: documents\<close>

text \<open>The three cases of \<^verbatim>\<open>resolveTokens\<close> with the loops over the items of an array and
  over the entries of an object, which assigns \<^verbatim>\<open>result[key] = resolved\<close>.\<close>

fun resolveTokens :: "json \<Rightarrow> json \<Rightarrow> json option"
  and resolveItems :: "json list \<Rightarrow> json \<Rightarrow> json list"
  and resolveEntries :: "(string \<times> json) list \<Rightarrow> json \<Rightarrow> (string \<times> json) list \<Rightarrow> (string \<times> json) list"
where
  "resolveTokens (JStr s) context = map_option JStr (resolveStringTokens s context)"
| "resolveTokens (JArr xs) context = Some (JArr (resolveItems xs context))"
| "resolveTokens (JObj kvs) context = Some (JObj (resolveEntries kvs context []))"
| "resolveTokens JNull context = Some JNull"
| "resolveTokens (JBool b) context = Some (JBool b)"
| "resolveTokens (JNum m e) context = Some (JNum m e)"
| "resolveItems [] context = []"
| "resolveItems (item # items) context =
     (case resolveTokens item context of
        Some resolved \<Rightarrow> resolved # resolveItems items context
      | None \<Rightarrow> resolveItems items context)"
| "resolveEntries [] context result = result"
| "resolveEntries ((key, v) # kvs) context result =
     (case resolveTokens v context of
        Some resolved \<Rightarrow> resolveEntries kvs context (assign key resolved result)
      | None \<Rightarrow> resolveEntries kvs context result)"

text \<open>\<^verbatim>\<open>{...payload, meta}\<close>: the own entries of the payload, then \<^verbatim>\<open>meta\<close>.\<close>

fun spread :: "json \<Rightarrow> (string \<times> json) list" where
  "spread (JObj kvs) = kvs"
| "spread (JArr xs) = zip (map digits [0..<length xs]) xs"
| "spread (JStr s) = zip (map digits [0..<length s]) (map (\<lambda>c. JStr [c]) s)"
| "spread v = []"

text \<open>The template files, read and parsed: \<open>Inl\<close> is the message of the error that
  \<^verbatim>\<open>loadTemplate\<close> throws.\<close>

type_synonym templates = "string \<Rightarrow> string + json"

definition processTemplate :: "templates \<Rightarrow> string \<Rightarrow> json \<Rightarrow> json \<Rightarrow> exn + json option" where
  "processTemplate files templatePath payload meta =
     (case files templatePath of
        Inl msg \<Rightarrow> Inl (Error msg)
      | Inr doc \<Rightarrow> Inr (resolveTokens doc (JObj (AList.update ''meta'' meta (spread payload)))))"

subsection \<open>Utilities: wildcard matching\<close>

text \<open>The regular expressions that \<^verbatim>\<open>matchesWildcard\<close> can build: a sequence of atoms, each
  a literal character or \<^verbatim>\<open>.\<close>, under at most one quantifier \<^verbatim>\<open>*\<close> or \<^verbatim>\<open>?\<close>, which a
  further \<^verbatim>\<open>?\<close> makes lazy.  Laziness does not change what \<^verbatim>\<open>test\<close> answers.\<close>

datatype atom = Lit char | AnyChar

datatype quant = One | Opt | Star

datatype stage = NoRepeat | AfterAtom | AfterQuant

text \<open>\<^verbatim>\<open>new RegExp(source)\<close> on the body between \<^verbatim>\<open>^\<close> and \<^verbatim>\<open>$\<close>.  A backslash makes
  the character behind it, one of the escaped ones, a literal.  \<open>None\<close> is the
  \<^verbatim>\<open>SyntaxError\<close> of a quantifier with nothing to repeat, which \<^verbatim>\<open>^\<close> is not either.\<close>

fun parse :: "stage \<Rightarrow> (atom \<times> quant) list \<Rightarrow> string \<Rightarrow> (atom \<times> quant) list option" where
  "parse st acc [] = Some (rev acc)"
| "parse st acc (c # cs) =
     (if c = CHR 0x5C then
        (case cs of [] \<Rightarrow> None | d # ds \<Rightarrow> parse AfterAtom ((Lit d, One) # acc) ds)
      else if c = CHR ''.'' then parse AfterAtom ((AnyChar, One) # acc) cs
      else if c = CHR ''*'' \<or> c = CHR ''?'' then
        (case st of
           NoRepeat \<Rightarrow> None
         | AfterAtom \<Rightarrow>
             (case acc of
                [] \<Rightarrow> None
              | (a, q) # acc' \<Rightarrow>
                  parse AfterQuant ((a, if c = CHR ''*'' then Star else Opt) # acc') cs)
         | AfterQuant \<Rightarrow> if c = CHR ''?'' then parse NoRepeat acc cs else None)
      else parse AfterAtom ((Lit c, One) # acc) cs)"

fun atom_ok :: "atom \<Rightarrow> char \<Rightarrow> bool" where
  "atom_ok (Lit c) x = (x = c)"
| "atom_ok AnyChar x = (\<not> is_lt x)"

text \<open>\<^verbatim>\<open>regex.test(value)\<close> for a pattern anchored at both ends.\<close>

fun test :: "(atom \<times> quant) list \<Rightarrow> string \<Rightarrow> bool" where
  "test [] s = (s = [])"
| "test ((a, One) # items) s =
     (case s of [] \<Rightarrow> False | x # xs \<Rightarrow> atom_ok a x \<and> test items xs)"
| "test ((a, Opt) # items) s =
     (test items s \<or> (case s of [] \<Rightarrow> False | x # xs \<Rightarrow> atom_ok a x \<and> test items xs))"
| "test ((a, Star) # items) s =
     (test items s
      \<or> (case s of [] \<Rightarrow> False | x # xs \<Rightarrow> atom_ok a x \<and> test ((a, Star) # items) xs))"

text \<open>\<^verbatim>\<open>.replace(/[.+^${}()|[\]\\]/g, '\\$&')\<close> and \<^verbatim>\<open>.replace(/\*/g, '.*')\<close>.\<close>

definition escape :: "string \<Rightarrow> string" where
  "escape pattern =
     concat (map (\<lambda>c. if c \<in> set (''.+^${}()|[]'' @ [CHR 0x5C]) then [CHR 0x5C, c] else [c]) pattern)"

definition stars :: "string \<Rightarrow> string" where
  "stars pattern = concat (map (\<lambda>c. if c = CHR ''*'' then ''.*'' else [c]) pattern)"

definition matchesWildcard :: "string \<Rightarrow> string \<Rightarrow> exn + bool" where
  "matchesWildcard pattern v =
     (if pattern = ''*'' then Inr True
      else if CHR ''*'' \<notin> set pattern then Inr (pattern = v)
      else (let regexPattern = stars (escape pattern)
            in case parse NoRepeat [] regexPattern of
                 None \<Rightarrow> Inl (SyntaxError (''^'' @ regexPattern @ ''$''))
               | Some regex \<Rightarrow> Inr (test regex v)))"

subsection \<open>Routes\<close>

record auth_config =
  auth_type :: "string option"
  origins :: "string list option"
  key :: "string option"
  allowed_ips :: "string list option"

text \<open>Optional fields are options; \<open>multi\<close> and \<open>fallback\<close> are read for their truth value
  only, so an absent flag is \<open>False\<close>.\<close>

record route =
  name :: "string option"
  event_match :: string
  target_url :: string
  methods :: "string list option"
  template :: "string option"
  auth :: "auth_config option"
  priority :: "int option"
  multi :: bool
  fallback :: bool
  headers :: "(string \<times> string) list"

subsection \<open>Utilities: sorting routes by priority\<close>

text \<open>The number that the comparator of \<^verbatim>\<open>sortRoutesByPriority\<close> returns, reduced to an
  integer of the same sign: a defined priority is an integer, an undefined one is
  \<^verbatim>\<open>Infinity\<close>, and \<^verbatim>\<open>Infinity - Infinity\<close> is never computed.\<close>

definition compareRoutes :: "nat \<times> route \<Rightarrow> nat \<times> route \<Rightarrow> int" where
  "compareRoutes a b =
     (if priority (snd a) \<noteq> priority (snd b) then
        (case (priority (snd a), priority (snd b)) of
           (Some priorityA, Some priorityB) \<Rightarrow> priorityA - priorityB
         | (Some priorityA, None) \<Rightarrow> - 1
         | (None, _) \<Rightarrow> 1)
      else int (fst a) - int (fst b))"

text \<open>\<^verbatim>\<open>Array.prototype.sort\<close> is stable and, under a comparator that is a total order,
  returns the one sorted permutation.  Insertion from the right computes it.\<close>

fun insert_sorted :: "('a \<Rightarrow> 'a \<Rightarrow> int) \<Rightarrow> 'a \<Rightarrow> 'a list \<Rightarrow> 'a list" where
  "insert_sorted cmp x [] = [x]"
| "insert_sorted cmp x (y # ys) =
     (if cmp x y \<le> 0 then x # y # ys else y # insert_sorted cmp x ys)"

definition js_sort :: "('a \<Rightarrow> 'a \<Rightarrow> int) \<Rightarrow> 'a list \<Rightarrow> 'a list" where
  "js_sort cmp xs = foldr (insert_sorted cmp) xs []"

definition sortRoutesByPriority :: "route list \<Rightarrow> route list" where
  "sortRoutesByPriority rs = map snd (js_sort compareRoutes (zip [0..<length rs] rs))"

subsection \<open>Requests and authentication\<close>

text \<open>A request as the router reads it.  \<open>req_query_payload\<close> is the value of
  \<^verbatim>\<open>normalizeGetPayload(req.query)\<close>, whose computation is not part of this development.\<close>

record request =
  req_method :: string
  req_headers :: "(string \<times> string) list"
  req_remoteAddress :: "string option"
  req_body :: "json option"
  req_query_payload :: json

text \<open>A header read for its truth value: an empty string counts as absent.\<close>

definition header :: "request \<Rightarrow> string \<Rightarrow> string option" where
  "header req h = (case map_of (req_headers req) h of
                     None \<Rightarrow> None | Some v \<Rightarrow> if v = [] then None else Some v)"

definition getClientIP :: "request \<Rightarrow> string" where
  "getClientIP req =
     (case header req ''x-forwarded-for'' of
        Some forwardedFor \<Rightarrow> trim (hd (split (CHR '','') forwardedFor))
      | None \<Rightarrow> (case req_remoteAddress req of
                    None \<Rightarrow> ''unknown''
                  | Some a \<Rightarrow> if a = [] then ''unknown'' else a))"

datatype auth_result = AuthOk | AuthFailed string

definition authenticateOriginWhitelist :: "request \<Rightarrow> auth_config \<Rightarrow> auth_result" where
  "authenticateOriginWhitelist req authConfig =
     (case header req ''origin'' of
        None \<Rightarrow> AuthFailed ''Missing Origin header for whitelist authentication''
      | Some origin \<Rightarrow>
          (case origins authConfig of
             None \<Rightarrow> AuthFailed ''Invalid origins configuration for whitelist authentication''
           | Some allowed \<Rightarrow>
               if origin \<in> set allowed then AuthOk
               else AuthFailed (''Origin '' @ origin @ '' not in whitelist'')))"

definition authenticateApiKey :: "request \<Rightarrow> auth_config \<Rightarrow> auth_result" where
  "authenticateApiKey req authConfig =
     (case header req ''x-api-key'' of
        None \<Rightarrow> AuthFailed ''Missing x-api-key header for API key authentication''
      | Some providedKey \<Rightarrow>
          (case key authConfig of
             None \<Rightarrow> AuthFailed ''Invalid key configuration for API key authentication''
           | Some expectedKey \<Rightarrow>
               if expectedKey = [] then
                 AuthFailed ''Invalid key configuration for API key authentication''
               else if providedKey \<noteq> expectedKey then AuthFailed ''Invalid API key''
               else AuthOk))"

definition authenticateIPWhitelist :: "request \<Rightarrow> auth_config \<Rightarrow> auth_result" where
  "authenticateIPWhitelist req authConfig =
     (let clientIP = getClientIP req
      in case allowed_ips authConfig of
           None \<Rightarrow>
             AuthFailed ''Invalid allowed_ips configuration for IP whitelist authentication''
         | Some allowed \<Rightarrow>
             if clientIP \<in> set allowed then AuthOk
             else AuthFailed (''IP address '' @ clientIP @ '' not in whitelist''))"

definition authenticate :: "request \<Rightarrow> auth_config option \<Rightarrow> auth_result" where
  "authenticate req authConfig =
     (case authConfig of
        None \<Rightarrow> AuthFailed ''Missing authentication configuration''
      | Some cfg \<Rightarrow>
          (case auth_type cfg of
             None \<Rightarrow> AuthFailed ''Missing authentication configuration''
           | Some t \<Rightarrow>
               if t = [] then AuthFailed ''Missing authentication configuration''
               else if t = ''whitelist'' then authenticateOriginWhitelist req cfg
               else if t = ''apikey'' then authenticateApiKey req cfg
               else if t = ''ip_whitelist'' then authenticateIPWhitelist req cfg
               else AuthFailed (''Unknown authentication type: '' @ t)))"

subsection \<open>Router: the collaborators\<close>

text \<open>What \<^verbatim>\<open>axios.post\<close> does with a request, before \<^verbatim>\<open>validateStatus\<close> is applied: a
  response with its status and status text, or a failure with its \<^verbatim>\<open>code\<close>, whether a
  request was made, and its message.  \<open>debugMaxEntries\<close> is the retention of the debug
  logger, 100 unless configured.\<close>

datatype reply = Response nat string | Failure "string option" bool string

record env =
  debugLogging :: bool
  debugMaxEntries :: nat
  files :: templates
  post :: "string \<Rightarrow> (string \<times> string) list \<Rightarrow> json option \<Rightarrow> reply"

datatype http_result = HttpOk nat | HttpFailed string "string option"

definition sendToTarget :: "env \<Rightarrow> route \<Rightarrow> json option \<Rightarrow> http_result" where
  "sendToTarget e r payload =
     (case post e (target_url r)
             (foldl (\<lambda>hs (k, v). AList.update k v hs)
                [(''Content-Type'', ''application/json'')] (headers r))
             payload of
        Response st statusText \<Rightarrow>
          if st < 500 then HttpOk st
          else HttpFailed (''HTTP '' @ digits st @ '': '' @ statusText)
                 (Some (''HTTP_'' @ digits st))
      | Failure code request msg \<Rightarrow>
          if code = Some ''ECONNABORTED'' then HttpFailed ''Request timeout'' code
          else if request then HttpFailed ''No response from target'' (Some ''NO_RESPONSE'')
          else HttpFailed msg (if code = Some [] then None else code))"

subsection \<open>Router: payloads\<close>

fun truthy :: "json \<Rightarrow> bool" where
  "truthy JNull = False"
| "truthy (JBool b) = b"
| "truthy (JNum m e) = (m \<noteq> 0)"
| "truthy (JStr s) = (s \<noteq> [])"
| "truthy (JArr xs) = True"
| "truthy (JObj kvs) = True"

text \<open>\<^verbatim>\<open>typeof v === 'object'\<close>.\<close>

fun typeof_object :: "json \<Rightarrow> bool" where
  "typeof_object JNull = True"
| "typeof_object (JArr xs) = True"
| "typeof_object (JObj kvs) = True"
| "typeof_object v = False"

text \<open>A property named by a word (\<^verbatim>\<open>events\<close>, \<^verbatim>\<open>name\<close>): only an object has one.\<close>

fun property :: "json \<Rightarrow> string \<Rightarrow> json option" where
  "property (JObj kvs) k = map_of kvs k"
| "property v k = None"

definition isValidGA4Payload :: "json option \<Rightarrow> bool" where
  "isValidGA4Payload payload =
     (case payload of
        None \<Rightarrow> False
      | Some p \<Rightarrow>
          truthy p \<and> typeof_object p \<and>
          (case property p ''events'' of
             Some (JArr events) \<Rightarrow>
               0 < length events \<and> truthy (events ! 0) \<and>
               (case property (events ! 0) ''name'' of Some (JStr n) \<Rightarrow> True | _ \<Rightarrow> False)
           | _ \<Rightarrow> False))"

text \<open>\<open>None\<close> is \<^verbatim>\<open>null\<close>.\<close>

definition getEventName :: "json option \<Rightarrow> string option" where
  "getEventName payload =
     (if isValidGA4Payload payload then
        (case payload of
           Some p \<Rightarrow>
             (case property p ''events'' of
                Some (JArr events) \<Rightarrow>
                  (case property (events ! 0) ''name'' of Some (JStr n) \<Rightarrow> Some n | _ \<Rightarrow> None)
              | _ \<Rightarrow> None)
         | None \<Rightarrow> None)
      else None)"

text \<open>\<^verbatim>\<open>obj.hasOwnProperty(key)\<close> inside \<^verbatim>\<open>for (const key in obj)\<close>: an object that has an
  own entry of that name holds a value there and no function, so the call throws at the
  first key.\<close>

definition not_a_function :: exn where
  "not_a_function = TypeError ''obj.hasOwnProperty is not a function''"

definition shadows_hasOwnProperty :: "(string \<times> json) list \<Rightarrow> bool" where
  "shadows_hasOwnProperty kvs = (map_of kvs ''hasOwnProperty'' \<noteq> None)"

text \<open>\<^verbatim>\<open>deepClone\<close> of \<^verbatim>\<open>utils.js\<close>: the copy of an array or an object, element by element.\<close>

fun deepClone :: "json \<Rightarrow> exn + json"
  and cloneItems :: "json list \<Rightarrow> exn + json list"
  and cloneEntries :: "(string \<times> json) list \<Rightarrow> (string \<times> json) list \<Rightarrow> exn + (string \<times> json) list"
where
  "deepClone (JArr xs) = and_then (cloneItems xs) (\<lambda>ys. Inr (JArr ys))"
| "deepClone (JObj kvs) =
     (if shadows_hasOwnProperty kvs then Inl not_a_function
      else and_then (cloneEntries kvs []) (\<lambda>cloned. Inr (JObj cloned)))"
| "deepClone JNull = Inr JNull"
| "deepClone (JBool b) = Inr (JBool b)"
| "deepClone (JNum m e) = Inr (JNum m e)"
| "deepClone (JStr s) = Inr (JStr s)"
| "cloneItems [] = Inr []"
| "cloneItems (item # rest) =
     and_then (deepClone item) (\<lambda>y. and_then (cloneItems rest) (\<lambda>ys. Inr (y # ys)))"
| "cloneEntries [] cloned = Inr cloned"
| "cloneEntries ((k, v) # kvs) cloned =
     and_then (deepClone v) (\<lambda>y. cloneEntries kvs (assign k y cloned))"

subsection \<open>Debug logger\<close>

text \<open>\<^verbatim>\<open>toLowerCase\<close> on the letters A to Z.  The other code units below 256 that it changes
  become code units that no sensitive field name holds.\<close>

definition toLowerCase :: "string \<Rightarrow> string" where
  "toLowerCase s =
     map (\<lambda>c. if 65 \<le> (of_char c :: nat) \<and> (of_char c :: nat) \<le> 90
              then char_of (of_char c + (32 :: nat)) else c) s"

definition sensitiveFields :: "string list" where
  "sensitiveFields =
     [''password'', ''token'', ''secret'', ''key'', ''auth'', ''authorization'',
      ''credit_card'', ''ssn'', ''social_security'']"

definition isSensitive :: "string \<Rightarrow> bool" where
  "isSensitive k =
     list_ex (\<lambda>field. str_includes (toLowerCase k) (toLowerCase field)) sensitiveFields"

text \<open>\<^verbatim>\<open>_removeSensitiveFields\<close>, which changes the object in place: the model returns the
  changed value.  The keys of an array are its indices, none of which is sensitive.\<close>

fun removeSensitiveFields :: "json \<Rightarrow> exn + json"
  and removeItems :: "json list \<Rightarrow> exn + json list"
  and removeEntries :: "(string \<times> json) list \<Rightarrow> exn + (string \<times> json) list"
where
  "removeSensitiveFields (JArr xs) = and_then (removeItems xs) (\<lambda>ys. Inr (JArr ys))"
| "removeSensitiveFields (JObj kvs) =
     (if shadows_hasOwnProperty kvs then Inl not_a_function
      else and_then (removeEntries kvs) (\<lambda>cleaned. Inr (JObj cleaned)))"
| "removeSensitiveFields JNull = Inr JNull"
| "removeSensitiveFields (JBool b) = Inr (JBool b)"
| "removeSensitiveFields (JNum m e) = Inr (JNum m e)"
| "removeSensitiveFields (JStr s) = Inr (JStr s)"
| "removeItems [] = Inr []"
| "removeItems (item # rest) =
     and_then (removeSensitiveFields item)
       (\<lambda>y. and_then (removeItems rest) (\<lambda>ys. Inr (y # ys)))"
| "removeEntries [] = Inr []"
| "removeEntries ((k, v) # kvs) =
     (if isSensitive k then
        and_then (removeEntries kvs) (\<lambda>cleaned. Inr ((k, JStr ''[REDACTED]'') # cleaned))
      else
        and_then (removeSensitiveFields v)
          (\<lambda>y. and_then (removeEntries kvs) (\<lambda>cleaned. Inr ((k, y) # cleaned))))"

text \<open>\<^verbatim>\<open>_sanitizePayload\<close>: the round trip through \<^verbatim>\<open>JSON.stringify\<close> and \<^verbatim>\<open>JSON.parse\<close>
  gives the payload again.\<close>

definition sanitizePayload :: "json option \<Rightarrow> exn + json option" where
  "sanitizePayload payload =
     (case payload of
        None \<Rightarrow> Inr None
      | Some p \<Rightarrow>
          if \<not> truthy p \<or> \<not> typeof_object p then Inr (Some p)
          else and_then (removeSensitiveFields p) (\<lambda>sanitized. Inr (Some sanitized)))"

text \<open>\<^verbatim>\<open>debugLogger.logRequest\<close>, kept for the exception it can raise while it builds the
  entry; the entries it stores and what it prints are not part of the model.  The file
  logger catches its own exceptions and is left out.\<close>

definition logRequest :: "env \<Rightarrow> json option \<Rightarrow> json option \<Rightarrow> exn + unit" where
  "logRequest e originalPayload transformedPayload =
     (if debugMaxEntries e = 0 then Inr ()
      else
        and_then (sanitizePayload originalPayload)
          (\<lambda>original.
             and_then (case transformedPayload of
                         None \<Rightarrow> Inr None
                       | Some t \<Rightarrow> if truthy t then sanitizePayload (Some t) else Inr None)
               (\<lambda>transformed. Inr ())))"

subsection \<open>Router\<close>

record router =
  routes :: "route list"
  fallbackRoute :: "route option"

definition initialize :: "route list \<Rightarrow> router" where
  "initialize allRoutes =
     \<lparr>routes = sortRoutesByPriority (filter (\<lambda>r. \<not> fallback r) allRoutes),
      fallbackRoute = (case filter fallback allRoutes of [] \<Rightarrow> None | f # fs \<Rightarrow> Some f)\<rparr>"

text \<open>The elements of \<^verbatim>\<open>[...new Set(xs)]\<close>: first occurrences, in order.\<close>

fun unique :: "'a list \<Rightarrow> 'a list \<Rightarrow> 'a list" where
  "unique seen [] = []"
| "unique seen (x # xs) = (if x \<in> set seen then unique seen xs else x # unique (x # seen) xs)"

definition accepts :: "route \<Rightarrow> string \<Rightarrow> bool" where
  "accepts r m = (case methods r of None \<Rightarrow> False | Some ms \<Rightarrow> m \<in> set ms)"

text \<open>\<open>Inl\<close> is the invalid result with its error and its allowed methods.\<close>

definition validateRequestMethod :: "request \<Rightarrow> route list \<Rightarrow> (string \<times> string list) + unit" where
  "validateRequestMethod req rs =
     (let requestMethod = req_method req;
          hasValidRoute = list_ex (\<lambda>r. accepts r requestMethod) rs
      in if \<not> hasValidRoute then
           Inl (''Method '' @ requestMethod @ '' not allowed'',
                unique [] (concat (map (\<lambda>r. case methods r of None \<Rightarrow> [''POST''] | Some ms \<Rightarrow> ms) rs)))
         else Inr ())"

text \<open>The loop of \<^verbatim>\<open>findMatchingRoutes\<close>; \<open>Inl\<close> is the exception that \<^verbatim>\<open>matchesWildcard\<close>
  throws.\<close>

fun findMatchingRoutes :: "route list \<Rightarrow> string \<Rightarrow> string \<Rightarrow> exn + route list" where
  "findMatchingRoutes [] eventName m = Inr []"
| "findMatchingRoutes (r # rs) eventName m =
     (case matchesWildcard (event_match r) eventName of
        Inl e \<Rightarrow> Inl e
      | Inr matched \<Rightarrow>
          if matched \<and> accepts r m then
            (if \<not> multi r then Inr [r]
             else (case findMatchingRoutes rs eventName m of
                     Inl e \<Rightarrow> Inl e
                   | Inr matching \<Rightarrow> Inr (r # matching)))
          else findMatchingRoutes rs eventName m)"

record result =
  success :: bool
  error :: "string option"
  route :: "string option"
  status :: "nat option"

definition failed :: "route \<Rightarrow> string \<Rightarrow> result" where
  "failed r err = \<lparr>success = False, error = Some err, route = name r, status = None\<rparr>"

text \<open>The \<^verbatim>\<open>try\<close> block of \<^verbatim>\<open>executeRoute\<close>: \<open>Inl\<close> is what it throws.\<close>

definition attempt :: "env \<Rightarrow> route \<Rightarrow> request \<Rightarrow> json \<Rightarrow> json \<Rightarrow> exn + result" where
  "attempt e r req payload meta =
     (case authenticate req (auth r) of
        AuthFailed err \<Rightarrow>
          and_then (logRequest e (Some payload) None) (\<lambda>u. Inr (failed r err))
      | AuthOk \<Rightarrow>
          and_then
            (case template r of
               None \<Rightarrow> and_then (deepClone payload) (\<lambda>c. Inr (Some c))
             | Some t \<Rightarrow>
                 if t = [] then and_then (deepClone payload) (\<lambda>c. Inr (Some c))
                 else processTemplate (files e) t payload meta)
            (\<lambda>transformedPayload.
               case sendToTarget e r transformedPayload of
                 HttpFailed err code \<Rightarrow>
                   and_then (logRequest e (Some payload) transformedPayload)
                     (\<lambda>u. Inr (failed r err))
               | HttpOk st \<Rightarrow>
                   and_then (logRequest e (Some payload) transformedPayload)
                     (\<lambda>u. Inr \<lparr>success = True, error = None, route = name r,
                                status = Some st\<rparr>)))"

text \<open>\<^verbatim>\<open>executeRoute\<close>: the \<^verbatim>\<open>catch\<close> block logs, which can throw in its turn, and returns
  the failure.\<close>

definition executeRoute :: "env \<Rightarrow> route \<Rightarrow> request \<Rightarrow> json \<Rightarrow> json \<Rightarrow> exn + result" where
  "executeRoute e r req payload meta =
     (case attempt e r req payload meta of
        Inr res \<Rightarrow> Inr res
      | Inl err \<Rightarrow>
          and_then (logRequest e (Some payload) None) (\<lambda>u. Inr (failed r (message err))))"

text \<open>The loop of \<^verbatim>\<open>executeRoutes\<close>, which pushes one result for each route and ends when
  a route throws.\<close>

fun executeRoutes :: "env \<Rightarrow> route list \<Rightarrow> request \<Rightarrow> json \<Rightarrow> json \<Rightarrow> result list \<Rightarrow> exn + result list" where
  "executeRoutes e [] req payload meta results = Inr results"
| "executeRoutes e (r # rs) req payload meta results =
     and_then (executeRoute e r req payload meta)
       (\<lambda>res. executeRoutes e rs req payload meta (results @ [res]))"

record response =
  code :: nat
  sent_headers :: "(string \<times> string) list"
  body :: json

definition json_response :: "nat \<Rightarrow> json \<Rightarrow> response" where
  "json_response c b = \<lparr>code = c, sent_headers = [], body = b\<rparr>"

definition error_body :: "env \<Rightarrow> string \<Rightarrow> string \<Rightarrow> json" where
  "error_body e detailed generic =
     JObj [(''error'', JStr (if debugLogging e then detailed else generic))]"

text \<open>\<^verbatim>\<open>handleUnmatchedEvent\<close>: \<open>Inl\<close> is what it throws, with no response sent.\<close>

definition handleUnmatchedEvent :: "env \<Rightarrow> router \<Rightarrow> request \<Rightarrow> json \<Rightarrow> json \<Rightarrow> exn + response" where
  "handleUnmatchedEvent e rt req payload meta =
     (let eventName = getEventName (Some payload)
      in case fallbackRoute rt of
           Some fb \<Rightarrow>
             and_then (executeRoute e fb req payload meta)
               (\<lambda>res.
                  if success res then
                    Inr (json_response 200
                           (JObj [(''status'', JStr ''success''), (''processed'', JNum 1 0),
                                  (''fallback'', JBool True)]))
                  else
                    Inr (json_response 500
                           (error_body e
                              (''Fallback route failed: ''
                                 @ (case error res of None \<Rightarrow> ''undefined'' | Some m \<Rightarrow> m))
                              ''Internal Server Error'')))
         | None \<Rightarrow>
             and_then (logRequest e (Some payload) None)
               (\<lambda>u. Inr (json_response 200
                            (JObj [(''status'', JStr ''unmatched''),
                                   (''event'', case eventName of
                                                 None \<Rightarrow> JNull | Some n \<Rightarrow> JStr n)]))))"

text \<open>\<^verbatim>\<open>results.map(r => r.error).filter(Boolean)\<close>.\<close>

definition errorMessages :: "result list \<Rightarrow> string list" where
  "errorMessages results =
     concat (map (\<lambda>r. case error r of None \<Rightarrow> [] | Some m \<Rightarrow> if m = [] then [] else [m]) results)"

text \<open>The \<^verbatim>\<open>try\<close> block of \<^verbatim>\<open>processRequest\<close>.  The payload of a request that is not a
  \<^verbatim>\<open>GET\<close> is its body.  A payload that passed \<^verbatim>\<open>isValidGA4Payload\<close> is defined and has an
  event name, so the two \<open>None\<close> cases behind that test are never taken.\<close>

definition dispatch :: "env \<Rightarrow> router \<Rightarrow> request \<Rightarrow> json \<Rightarrow> exn + response" where
  "dispatch e rt req meta =
     (let allRoutes = routes rt @ (case fallbackRoute rt of None \<Rightarrow> [] | Some fb \<Rightarrow> [fb])
      in case validateRequestMethod req allRoutes of
           Inl (err, allowedMethods) \<Rightarrow>
             and_then (logRequest e None None)
               (\<lambda>u. Inr \<lparr>code = 405, sent_headers = [(''Allow'', join '', '' allowedMethods)],
                          body = JObj [(''error'', JStr ''Method Not Allowed'')]\<rparr>)
         | Inr u \<Rightarrow>
             (let payload = (if req_method req = ''GET'' then Some (req_query_payload req)
                             else req_body req);
                  invalid = and_then (logRequest e payload None)
                     (\<lambda>u. Inr (json_response 400
                                  (error_body e ''Invalid payload: missing events[0].name''
                                     ''Bad Request'')))
              in if \<not> isValidGA4Payload payload then invalid
                 else
                   (case (payload, getEventName payload) of
                      (Some p, Some eventName) \<Rightarrow>
                        and_then (findMatchingRoutes (routes rt) eventName (req_method req))
                          (\<lambda>matchingRoutes.
                             if length matchingRoutes = 0 then
                               handleUnmatchedEvent e rt req p meta
                             else
                               and_then (executeRoutes e matchingRoutes req p meta [])
                                 (\<lambda>results.
                                    let successCount = length (filter success results)
                                    in if 0 < successCount then
                                         Inr (json_response 200
                                                (JObj [(''status'', JStr ''success''),
                                                       (''processed'', JNum (int successCount) 0)]))
                                       else
                                         Inr (json_response 500
                                                (error_body e
                                                   (''All routes failed: ''
                                                      @ join '', '' (errorMessages results))
                                                   ''Internal Server Error''))))
                    | _ \<Rightarrow> invalid)))"

text \<open>\<^verbatim>\<open>processRequest\<close>: the \<^verbatim>\<open>catch\<close> block logs the body of the request, which can
  throw in its turn, and answers 500.  \<open>Inl\<close> is a request that gets no response.\<close>

definition processRequest :: "env \<Rightarrow> router \<Rightarrow> request \<Rightarrow> json \<Rightarrow> exn + response" where
  "processRequest e rt req meta =
     (case dispatch e rt req meta of
        Inr res \<Rightarrow> Inr res
      | Inl err \<Rightarrow>
          and_then (logRequest e (case req_body req of
                                    None \<Rightarrow> None
                                  | Some b \<Rightarrow> if truthy b then Some b else None) None)
            (\<lambda>u. Inr (json_response 500
                         (error_body e (message err) ''Internal Server Error''))))"

section \<open>Notions of the specification\<close>

text \<open>A token is missing when its path is not found and it has no fallback, or when the
  fallback is not found either.\<close>

definition token_missing :: "string \<Rightarrow> json \<Rightarrow> bool" where
  "token_missing expression context =
     (case fallbackMatch expression of
        None \<Rightarrow> getValueByPath expression context = None
      | Some (path, alternative) \<Rightarrow>
          getValueByPath (trim path) context = None
          \<and> processFallbackValue (trim alternative) context = None)"

fun segment_missing :: "json \<Rightarrow> segment \<Rightarrow> bool" where
  "segment_missing context (Text c) = False"
| "segment_missing context (Token e) = token_missing (trim e) context"

text \<open>A string leaf is missing when one of its tokens is.\<close>

definition leaf_missing :: "string \<Rightarrow> json \<Rightarrow> bool" where
  "leaf_missing s context = list_ex (segment_missing context) (scan s)"

text \<open>Priorities in ascending order, an absent priority counting as plus infinity.\<close>

fun prio_le :: "int option \<Rightarrow> int option \<Rightarrow> bool" where
  "prio_le (Some x) (Some y) = (x \<le> y)"
| "prio_le None (Some y) = False"
| "prio_le p None = True"

text \<open>The same order as a key: present priorities first, in their order, then the absent
  ones.  With the original index it is what the comparator orders by.\<close>

definition prank :: "int option \<Rightarrow> bool \<times> int" where
  "prank p = (case p of None \<Rightarrow> (True, 0) | Some x \<Rightarrow> (False, x))"

definition sort_key_of :: "nat \<times> route \<Rightarrow> (bool \<times> int) \<times> nat" where
  "sort_key_of a = (prank (priority (snd a)), fst a)"

text \<open>Wildcard matching as the specification words it: a star stands for any characters,
  none included, and every other character for itself.\<close>

fun glob :: "string \<Rightarrow> string \<Rightarrow> bool" where
  "glob [] s = (s = [])"
| "glob (c # cs) [] = (c = CHR ''*'' \<and> glob cs [])"
| "glob (c # cs) (x # xs) =
     (if c = CHR ''*'' then glob cs (x # xs) \<or> glob (c # cs) xs else x = c \<and> glob cs xs)"

text \<open>The regular expression of a pattern without question mark.\<close>

definition items :: "string \<Rightarrow> (atom \<times> quant) list" where
  "items p = map (\<lambda>c. if c = CHR ''*'' then (AnyChar, Star) else (Lit c, One)) p"

text \<open>A route qualifies when its pattern matches the event name and it accepts the method.\<close>

definition qualifies :: "string \<Rightarrow> string \<Rightarrow> route \<Rightarrow> bool" where
  "qualifies eventName m r =
     (matchesWildcard (event_match r) eventName = Inr True \<and> accepts r m)"

subsection \<open>Examples\<close>

definition example_route :: "string \<Rightarrow> bool \<Rightarrow> route" where
  "example_route n mu =
     \<lparr>name = Some n, event_match = ''purchase'', target_url = ''https://example.com/hook'',
      methods = Some [''POST''], template = None, auth = None, priority = None,
      multi = mu, fallback = False, headers = []\<rparr>"

definition api_key :: auth_config where
  "api_key = \<lparr>auth_type = Some ''apikey'', origins = None, key = Some ''k'', allowed_ips = None\<rparr>"

text \<open>The passthrough route of the README, which has no \<^verbatim>\<open>methods\<close>, under an API key.\<close>

definition readme_route :: route where
  "readme_route =
     \<lparr>name = Some ''send-to-n8n-as-is'', event_match = ''*'',
      target_url = ''https://automate.example.com/webhook/ga4-ingest'',
      methods = None, template = None, auth = Some api_key,
      priority = None, multi = False, fallback = False, headers = []\<rparr>"

definition post_request :: request where
  "post_request =
     \<lparr>req_method = ''POST'', req_headers = [(''x-api-key'', ''k'')], req_remoteAddress = None,
      req_body = Some (JObj [(''events'', JArr [JObj [(''name'', JStr ''purchase'')]])]),
      req_query_payload = JNull\<rparr>"

text \<open>A route that matches \<^verbatim>\<open>purchase\<close>, is \<^verbatim>\<open>multi\<close> and asks for the API key; a body with
  an own entry \<^verbatim>\<open>hasOwnProperty\<close>; the body of another event; a route for \<^verbatim>\<open>GET\<close> only.\<close>

definition keyed_route :: "string \<Rightarrow> route" where
  "keyed_route n = (example_route n True)\<lparr>auth := Some api_key\<rparr>"

definition shadowing_body :: json where
  "shadowing_body =
     JObj [(''events'', JArr [JObj [(''name'', JStr ''purchase'')]]), (''hasOwnProperty'', JNum 1 0)]"

definition signup_body :: json where
  "signup_body = JObj [(''events'', JArr [JObj [(''name'', JStr ''signup'')]])]"

definition get_only_route :: route where
  "get_only_route = (keyed_route ''R1'')\<lparr>methods := Some [''GET''], multi := False\<rparr>"

text \<open>An environment without template files, in which every target answers 200.\<close>

definition example_env :: env where
  "example_env =
     \<lparr>debugLogging = False, debugMaxEntries = 100,
      files = (\<lambda>p. Inl (''Template file not found: '' @ p)),
      post = (\<lambda>url hs payload. Response 200 ''OK'')\<rparr>"

section \<open>Properties of the template engine\<close>

subsection \<open>Strings\<close>

lemma startsWith_append: "startsWith (p @ b) p"
  by (induction p) auto

lemma str_includes_suffix: "str_includes s p \<Longrightarrow> str_includes (a @ s) p"
  by (induction a) auto

lemma str_includes_here: "str_includes (p @ b) p"
proof (cases "p @ b")
  case Nil
  then show ?thesis by simp
next
  case (Cons c cs)
  with startsWith_append [of p b] show ?thesis by simp
qed

lemma str_includes_middle: "str_includes (a @ p @ b) p"
  by (rule str_includes_suffix) (rule str_includes_here)

subsection \<open>Missing tokens\<close>





lemma resolveItems_append:
  "resolveItems (xs @ ys) context = resolveItems xs context @ resolveItems ys context"
  by (induction xs) (auto split: option.splits)

lemma resolveEntries_append:
  "resolveEntries (kvs @ kvs') context acc
   = resolveEntries kvs' context (resolveEntries kvs context acc)"
  by (induction kvs arbitrary: acc) (auto split: option.splits)






subsection \<open>Substrings\<close>

lemma startsWith_iff: "startsWith s p \<longleftrightarrow> (\<exists>b. s = p @ b)"
  by (induction s p rule: startsWith.induct) auto

lemma str_includes_iff: "str_includes s p \<longleftrightarrow> (\<exists>a b. s = a @ p @ b)"
proof
  assume "str_includes s p"
  then show "\<exists>a b. s = a @ p @ b"
  proof (induction s)
    case Nil
    then show ?case by simp
  next
    case (Cons c cs)
    from Cons.prems have "startsWith (c # cs) p \<or> str_includes cs p" by simp
    then show ?case
    proof
      assume "startsWith (c # cs) p"
      then obtain b where "c # cs = p @ b" by (auto simp: startsWith_iff)
      then have "c # cs = [] @ p @ b" by simp
      then show ?thesis by blast
    next
      assume "str_includes cs p"
      with Cons.IH obtain a b where "cs = a @ p @ b" by blast
      then have "c # cs = (c # a) @ p @ b" by simp
      then show ?thesis by blast
    qed
  qed
next
  assume "\<exists>a b. s = a @ p @ b"
  then show "str_includes s p" by (auto simp: str_includes_middle)
qed

lemma str_includes_embed: "str_includes s p \<Longrightarrow> str_includes (a @ s @ b) p"
proof -
  assume "str_includes s p"
  then obtain x y where "s = x @ p @ y" by (auto simp: str_includes_iff)
  then have "a @ s @ b = (a @ x) @ p @ (y @ b)" by simp
  then show ?thesis by (simp only: str_includes_middle)
qed

subsection \<open>Fallback expressions\<close>

lemma startsWith_hd: "startsWith t (c # p) \<Longrightarrow> t \<noteq> [] \<and> hd t = c"
  by (cases t) auto

lemma match_rest_no_bar: "CHR ''|'' \<notin> set r \<Longrightarrow> match_rest r = None"
proof -
  assume a: "CHR ''|'' \<notin> set r"
  have "\<not> startsWith (dropWhile is_ws r) ''||''"
  proof
    assume "startsWith (dropWhile is_ws r) ''||''"
    then have "dropWhile is_ws r \<noteq> []" "hd (dropWhile is_ws r) = CHR ''|''"
      by (auto dest: startsWith_hd)
    then have "CHR ''|'' \<in> set (dropWhile is_ws r)"
      by (metis hd_in_set)
    with a show False by (auto dest: set_dropWhileD)
  qed
  then show ?thesis by (simp add: match_rest_def)
qed

lemma lazy_main_no_bar: "CHR ''|'' \<notin> set cs \<Longrightarrow> lazy_main pre cs = None"
  by (induction cs arbitrary: pre) (auto simp: match_rest_no_bar)

lemma fallbackMatch_no_bar: "CHR ''|'' \<notin> set e \<Longrightarrow> fallbackMatch e = None"
  by (simp add: fallbackMatch_def lazy_main_no_bar)

lemma set_trim: "set (trim s) \<subseteq> set s"
  by (auto simp: trim_def dest!: set_dropWhileD)









subsection \<open>Paths and single tokens\<close>

lemma match_token_single:
  assumes "p \<noteq> []" "CHR ''}'' \<notin> set p"
  shows "match_token (''{{'' @ p @ ''}}'') = Some (p, [])"
proof -
  have "takeWhile (\<lambda>c. c \<noteq> CHR ''}'') (p @ ''}}'') = p"
    using assms(2) by (subst takeWhile_append2) auto
  moreover have "dropWhile (\<lambda>c. c \<noteq> CHR ''}'') (p @ ''}}'') = ''}}''"
    using assms(2) by (subst dropWhile_append2) auto
  ultimately show ?thesis using assms(1) by (simp add: match_token_def)
qed

lemma scan_single:
  assumes "p \<noteq> []" "CHR ''}'' \<notin> set p"
  shows "scan (''{{'' @ p @ ''}}'') = [Token p]"
  using match_token_single [OF assms] by simp

lemma split_not_Nil: "split d s \<noteq> []"
  by (induction s) (auto split: list.splits)

lemma split_no_separator: "d \<notin> set s \<Longrightarrow> split d s = [s]"
  by (induction s) auto

lemma split_append_separator:
  "d \<notin> set k \<Longrightarrow> split d (q @ d # k) = split d q @ [k]"
proof (induction q)
  case Nil
  then show ?case by (simp add: split_no_separator)
next
  case (Cons c q)
  then show ?case
    using split_not_Nil [of d q] by (cases "split d q") auto
qed

lemma walk_None: "walk parts None = None"
  by (cases parts) auto

lemma walk_append: "walk (ps @ qs) current = walk qs (walk ps current)"
proof (induction ps arbitrary: current)
  case Nil
  then show ?case by simp
next
  case (Cons part ps)
  show ?case
  proof (cases current)
    case None
    then show ?thesis by (simp add: walk_None)
  next
    case (Some v)
    then show ?thesis using Cons.IH by (cases v) (simp_all add: walk_None)
  qed
qed

lemma getValueByPath_member:
  assumes "getValueByPath q context = Some (JObj kvs)" "CHR ''.'' \<notin> set k"
  shows "getValueByPath (q @ ''.'' @ k) context = map_of kvs k"
  using assms by (simp add: getValueByPath_def split_append_separator walk_append)

lemma falsy_strings:
  "v \<in> set [JNull, JBool False, JNum 0 0, JStr []]
   \<Longrightarrow> js_String v \<in> set [''null'', ''false'', ''0'', []]
       \<and> \<not> str_includes (js_String v) MISSING_VALUE"
  by (auto simp: numToString_def digits.simps digit_char_def fraction_digits_def MISSING_VALUE_def)

lemma getValueByPath_top:
  assumes "CHR ''.'' \<notin> set k"
  shows "getValueByPath k (JObj kvs) = map_of kvs k"
  using assms by (simp add: getValueByPath_def split_no_separator)

lemma all_digits_no_dot:
  assumes "all_digits k"
  shows "CHR ''.'' \<notin> set k"
proof
  assume "CHR ''.'' \<in> set k"
  with assms have "is_digit (CHR ''.'')"
    unfolding all_digits_def list_all_iff by blast
  then show False by (simp add: is_digit_def)
qed

lemma getValueByPath_element:
  assumes "getValueByPath q context = Some (JArr xs)" "all_digits k" "parseInt k < length xs"
  shows "getValueByPath (q @ ''.'' @ k) context = Some (xs ! parseInt k)"
  using assms all_digits_no_dot [OF assms(2)]
  by (simp add: getValueByPath_def split_append_separator walk_append index_def)

text \<open>
  Claim C5.  A path that resolves to a present \<^verbatim>\<open>null\<close>, \<^verbatim>\<open>false\<close>, \<^verbatim>\<open>0\<close> or empty
  string is found: a leaf that is exactly the token of that path is not missing and
  renders to the string of the value, \<^verbatim>\<open>"null"\<close> for \<^verbatim>\<open>null\<close>.  And path resolution finds
  what is present, whatever the value: the entry that an object holds under a key, at the
  top of the context or below a path, and the element of an array at an index.
\<close>

theorem present_falsy_not_missing:
  assumes "p \<noteq> []" "CHR ''}'' \<notin> set p" "CHR ''|'' \<notin> set p"
    and "getValueByPath (trim p) context = Some v"
    and "v \<in> set [JNull, JBool False, JNum 0 0, JStr []]"
  shows "\<not> leaf_missing (''{{'' @ p @ ''}}'') context
       \<and> resolveTokens (JStr (''{{'' @ p @ ''}}'')) context = Some (JStr (js_String v))
       \<and> js_String v \<in> set [''null'', ''false'', ''0'', []]
       \<and> (\<forall>kvs k w. context = JObj kvs \<and> CHR ''.'' \<notin> set k \<and> map_of kvs k = Some w
            \<longrightarrow> getValueByPath k context = Some w)
       \<and> (\<forall>q kvs k w. getValueByPath q context = Some (JObj kvs) \<and> CHR ''.'' \<notin> set k
              \<and> map_of kvs k = Some w
            \<longrightarrow> getValueByPath (q @ ''.'' @ k) context = Some w)
       \<and> (\<forall>q xs k. getValueByPath q context = Some (JArr xs) \<and> all_digits k
              \<and> parseInt k < length xs
            \<longrightarrow> getValueByPath (q @ ''.'' @ k) context = Some (xs ! parseInt k))"
proof -
  have nb: "fallbackMatch (trim p) = None"
    using assms(3) set_trim [of p] by (intro fallbackMatch_no_bar) auto
  have sc: "scan (''{{'' @ p @ ''}}'') = [Token p]"
    using assms(1,2) by (rule scan_single)
  have r: "resolveTokenExpression (trim p) context = js_String v"
    using nb assms(4) by (simp add: resolveTokenExpression_def)
  have "\<not> token_missing (trim p) context"
    using nb assms(4) by (simp add: token_missing_def)
  then have 1: "\<not> leaf_missing (''{{'' @ p @ ''}}'') context"
    unfolding leaf_missing_def sc by simp
  have 2: "resolveTokens (JStr (''{{'' @ p @ ''}}'')) context = Some (JStr (js_String v))"
    using falsy_strings [OF assms(5)] r
    unfolding resolveTokens.simps resolveStringTokens_def sc by (simp add: Let_def)
  have 4: "\<forall>kvs k w. context = JObj kvs \<and> CHR ''.'' \<notin> set k \<and> map_of kvs k = Some w
            \<longrightarrow> getValueByPath k context = Some w"
  proof (intro allI impI)
    fix kvs k w
    assume a: "context = JObj kvs \<and> CHR ''.'' \<notin> set k \<and> map_of kvs k = Some w"
    then have "getValueByPath k (JObj kvs) = map_of kvs k" by (intro getValueByPath_top) simp
    with a show "getValueByPath k context = Some w" by simp
  qed
  have 5: "\<forall>q kvs k w. getValueByPath q context = Some (JObj kvs) \<and> CHR ''.'' \<notin> set k
              \<and> map_of kvs k = Some w
            \<longrightarrow> getValueByPath (q @ ''.'' @ k) context = Some w"
  proof (intro allI impI)
    fix q kvs k w
    assume a: "getValueByPath q context = Some (JObj kvs) \<and> CHR ''.'' \<notin> set k
              \<and> map_of kvs k = Some w"
    then have "getValueByPath (q @ ''.'' @ k) context = map_of kvs k"
      by (intro getValueByPath_member) simp_all
    with a show "getValueByPath (q @ ''.'' @ k) context = Some w" by simp
  qed
  have 6: "\<forall>q xs k. getValueByPath q context = Some (JArr xs) \<and> all_digits k
              \<and> parseInt k < length xs
            \<longrightarrow> getValueByPath (q @ ''.'' @ k) context = Some (xs ! parseInt k)"
  proof (intro allI impI)
    fix q xs k
    assume a: "getValueByPath q context = Some (JArr xs) \<and> all_digits k
              \<and> parseInt k < length xs"
    then show "getValueByPath (q @ ''.'' @ k) context = Some (xs ! parseInt k)"
      by (intro getValueByPath_element) simp_all
  qed
  have 3: "js_String v \<in> set [''null'', ''false'', ''0'', []]"
    using falsy_strings [OF assms(5)] by (rule conjunct1)
  from 1 2 3 4 5 6 show ?thesis by blast
qed

theorem present_falsy_not_missing_witness:
  "getValueByPath ''a.b'' (JObj [(''a'', JObj [(''b'', JNull)])]) = Some JNull
   \<and> resolveTokens (JStr ''{{a.b}}'') (JObj [(''a'', JObj [(''b'', JNull)])]) = Some (JStr ''null'')"
proof -
  let ?c = "JObj [(''a'', JObj [(''b'', JNull)])]"
  have h: "''a.b'' \<noteq> []" "CHR ''}'' \<notin> set ''a.b''" "CHR ''|'' \<notin> set ''a.b''" by simp_all
  have g: "getValueByPath (trim ''a.b'') ?c = Some JNull" by code_simp
  have g': "getValueByPath ''a.b'' ?c = Some JNull" by code_simp
  have v: "JNull \<in> set [JNull, JBool False, JNum 0 0, JStr []]" by simp
  note t = present_falsy_not_missing [OF h g v, THEN conjunct2, THEN conjunct1]
  from t g' show ?thesis by simp
qed

subsection \<open>The sentinel\<close>

lemma token_with_sentinel_None:
  assumes "Token e \<in> set (scan s)"
    and "str_includes (resolveTokenExpression (trim e) context) MISSING_VALUE"
  shows "resolveStringTokens s context = None"
proof -
  from assms(1) obtain a b where ab: "scan s = a @ Token e # b"
    by (auto dest: split_list)
  have "concat (map (replacement context) (scan s))
        = concat (map (replacement context) a) @ resolveTokenExpression (trim e) context
          @ concat (map (replacement context) b)"
    by (simp add: ab)
  then have "str_includes (concat (map (replacement context) (scan s))) MISSING_VALUE"
    using assms(2) by (simp only: str_includes_embed)
  moreover have "list_ex is_Token (scan s)"
    using assms(1) by (auto simp: list_ex_iff intro!: bexI [of _ "Token e"])
  ultimately show ?thesis
    by (simp add: resolveStringTokens_def Let_def)
qed

text \<open>
  Claim C10.  Whether a leaf with tokens is kept is decided by looking for the sentinel
  in the substituted string.  So a token whose path resolves to a present value, the
  string of which contains the sentinel, is not missing, and yet the leaf is omitted
  from its array or object.
\<close>

theorem sentinel_in_present_value_omits_leaf:
  assumes "Token e \<in> set (scan s)" "CHR ''|'' \<notin> set e"
    and "getValueByPath (trim e) context = Some v"
    and "str_includes (js_String v) MISSING_VALUE"
  shows "\<not> token_missing (trim e) context
       \<and> resolveStringTokens s context = None
       \<and> resolveTokens (JArr (xs @ JStr s # ys)) context = resolveTokens (JArr (xs @ ys)) context
       \<and> resolveTokens (JObj (kvs @ (k, JStr s) # kvs')) context
           = resolveTokens (JObj (kvs @ kvs')) context"
proof -
  have nb: "fallbackMatch (trim e) = None"
    using assms(2) set_trim [of e] by (intro fallbackMatch_no_bar) auto
  have r: "resolveTokenExpression (trim e) context = js_String v"
    using nb assms(3) by (simp add: resolveTokenExpression_def)
  have 1: "\<not> token_missing (trim e) context"
    using nb assms(3) by (simp add: token_missing_def)
  have 2: "resolveStringTokens s context = None"
    using assms(1,4) r by (intro token_with_sentinel_None [of e]) simp_all
  show ?thesis
    using 1 2 by (simp add: resolveItems_append resolveEntries_append)
qed

theorem sentinel_in_present_value_omits_leaf_witness:
  "\<not> leaf_missing ''{{x}}'' (JObj [(''x'', JStr ''__MISSING_VALUE__'')])
   \<and> getValueByPath ''x'' (JObj [(''x'', JStr ''__MISSING_VALUE__'')]) = Some (JStr ''__MISSING_VALUE__'')
   \<and> resolveTokens (JObj [(''a'', JStr ''{{x}}'')]) (JObj [(''x'', JStr ''__MISSING_VALUE__'')])
       = Some (JObj [])"
proof -
  let ?c = "JObj [(''x'', JStr ''__MISSING_VALUE__'')]"
  have t: "Token ''x'' \<in> set (scan ''{{x}}'')" by code_simp
  have b: "CHR ''|'' \<notin> set ''x''" by simp
  have g: "getValueByPath (trim ''x'') ?c = Some (JStr ''__MISSING_VALUE__'')" by code_simp
  have g': "getValueByPath ''x'' ?c = Some (JStr ''__MISSING_VALUE__'')" by code_simp
  have i: "str_includes (js_String (JStr ''__MISSING_VALUE__'')) MISSING_VALUE" by code_simp
  have l: "\<not> leaf_missing ''{{x}}'' ?c" by code_simp
  have a: "resolveTokens (JObj []) ?c = Some (JObj [])" by simp
  from sentinel_in_present_value_omits_leaf [OF t b g i, of "[]" "[]" "[]" "''a''" "[]"] g' l a
  show ?thesis by simp
qed

section \<open>Properties of the utilities\<close>

subsection \<open>Sorting by priority\<close>

lemma prank_inj: "prank p = prank q \<longleftrightarrow> p = q"
  by (auto simp: prank_def split: option.splits)

lemma prank_le: "prank p \<le> prank q \<longleftrightarrow> prio_le p q"
  by (cases p; cases q) (auto simp: prank_def)

lemma compareRoutes_le: "compareRoutes a b \<le> 0 \<longleftrightarrow> sort_key_of a \<le> sort_key_of b"
  by (cases "priority (snd a)"; cases "priority (snd b)")
     (auto simp: compareRoutes_def sort_key_of_def prank_def)

lemma insert_sorted_insort:
  "insert_sorted compareRoutes x ys = insort_key sort_key_of x ys"
  by (induction ys) (auto simp: compareRoutes_le)

lemma js_sort_sort_key: "js_sort compareRoutes xs = sort_key sort_key_of xs"
  by (induction xs) (auto simp: js_sort_def insert_sorted_insort)

lemma insort_index_irrelevant:
  "\<forall>y \<in> set ys. fst x < fst y
   \<Longrightarrow> insort_key sort_key_of x ys = insort_key (\<lambda>a. prank (priority (snd a))) x ys"
  by (induction ys) (auto simp: sort_key_of_def)

lemma sort_index_irrelevant:
  "sort_key sort_key_of (zip [k..<k + length rs] rs)
   = sort_key (\<lambda>a. prank (priority (snd a))) (zip [k..<k + length rs] rs)"
proof (induction rs arbitrary: k)
  case Nil
  then show ?case by simp
next
  case (Cons r rs)
  have z: "zip [k..<k + length (r # rs)] (r # rs) = (k, r) # zip [Suc k..<Suc k + length rs] rs"
    by (simp add: upt_conv_Cons del: upt_Suc)
  have "\<forall>y \<in> set (sort_key (\<lambda>a. prank (priority (snd a))) (zip [Suc k..<Suc k + length rs] rs)). k < fst y"
    by (auto dest!: set_zip_leftD)
  then show ?case
    unfolding z using Cons.IH [of "Suc k"] by (simp add: insort_index_irrelevant)
qed

lemma map_snd_insort:
  "map snd (insort_key (\<lambda>a. f (snd a)) x ys) = insort_key f (snd x) (map snd ys)"
  by (induction ys) auto

lemma map_snd_sort: "map snd (sort_key (\<lambda>a. f (snd a)) xs) = sort_key f (map snd xs)"
  by (induction xs) (auto simp: map_snd_insort)

lemma sortRoutesByPriority_sort_key:
  "sortRoutesByPriority rs = sort_key (\<lambda>r. prank (priority r)) rs"
proof -
  have "sortRoutesByPriority rs
        = map snd (sort_key (\<lambda>a. prank (priority (snd a))) (zip [0..<0 + length rs] rs))"
    using sort_index_irrelevant [of 0 rs]
    by (simp add: sortRoutesByPriority_def js_sort_sort_key)
  also have "\<dots> = sort_key (\<lambda>r. prank (priority r)) (map snd (zip [0..<0 + length rs] rs))"
    by (rule map_snd_sort)
  finally show ?thesis by simp
qed

text \<open>
  Claim C6.  Sorting puts the routes in ascending order of priority, a route without
  priority counting as plus infinity and so coming last; it permutes the routes; and it
  is stable: the routes of any one priority, and those without, keep the order they were
  declared in.  Three routes with priorities 5, none and 5 come out first, third, second.
\<close>

theorem sortRoutesByPriority_stable:
  "sorted_wrt (\<lambda>a b. prio_le (priority a) (priority b)) (sortRoutesByPriority rs)
   \<and> mset (sortRoutesByPriority rs) = mset rs
   \<and> (\<forall>p. filter (\<lambda>r. priority r = p) (sortRoutesByPriority rs) = filter (\<lambda>r. priority r = p) rs)
   \<and> sortRoutesByPriority [a\<lparr>priority := Some 5\<rparr>, b\<lparr>priority := None\<rparr>, c\<lparr>priority := Some 5\<rparr>]
       = [a\<lparr>priority := Some 5\<rparr>, c\<lparr>priority := Some 5\<rparr>, b\<lparr>priority := None\<rparr>]"
proof -
  let ?f = "\<lambda>r. prank (priority r)"
  have "sorted (map ?f (sort_key ?f rs))" by (rule sorted_sort_key)
  then have 1: "sorted_wrt (\<lambda>a b. prio_le (priority a) (priority b)) (sort_key ?f rs)"
    by (simp add: sorted_map prank_le)
  have 3: "filter (\<lambda>r. priority r = p) (sort_key ?f rs) = filter (\<lambda>r. priority r = p) rs" for p
    using sort_key_stable [of ?f "prank p" rs] by (simp add: prank_inj)
  have 4: "sort_key ?f [a\<lparr>priority := Some 5\<rparr>, b\<lparr>priority := None\<rparr>, c\<lparr>priority := Some 5\<rparr>]
       = [a\<lparr>priority := Some 5\<rparr>, c\<lparr>priority := Some 5\<rparr>, b\<lparr>priority := None\<rparr>]"
    by (simp add: prank_def)
  show ?thesis
    using 1 3 4 by (simp add: sortRoutesByPriority_sort_key)
qed

subsection \<open>Wildcard matching\<close>

lemma stars_escape_Cons:
  "stars (escape (c # p)) = stars (escape [c]) @ stars (escape p)"
  by (simp only: stars_def escape_def list.map concat.simps map_append concat_append append_Nil2)

lemma parse_char:
  assumes "c \<noteq> CHR ''?''"
  shows "parse st acc (stars (escape [c]) @ rest)
     = parse (if c = CHR ''*'' then AfterQuant else AfterAtom)
         ((if c = CHR ''*'' then (AnyChar, Star) else (Lit c, One)) # acc) rest"
proof -
  define S where "S = set (''.+^${}()|[]'' @ [CHR 0x5C])"
  have S: "CHR ''*'' \<notin> S" "CHR 0x5C \<in> S" "CHR ''.'' \<in> S"
    by (simp_all add: S_def)
  have esc: "escape [c] = (if c \<in> S then [CHR 0x5C, c] else [c])"
    by (simp only: escape_def S_def list.map concat.simps append_Nil2)
  show ?thesis
  proof (cases "c \<in> S")
    case True
    with S have "c \<noteq> CHR ''*''" by auto
    with True show ?thesis by (simp add: esc stars_def)
  next
    case False
    with S have "c \<noteq> CHR 0x5C" "c \<noteq> CHR ''.''" by auto
    with False assms show ?thesis by (simp add: esc stars_def)
  qed
qed

lemma parse_pattern:
  "CHR ''?'' \<notin> set p \<Longrightarrow> parse st acc (stars (escape p)) = Some (rev acc @ items p)"
proof (induction p arbitrary: st acc)
  case Nil
  then show ?case by (simp add: stars_def escape_def items_def)
next
  case (Cons c p)
  then have c: "c \<noteq> CHR ''?''" and p: "CHR ''?'' \<notin> set p" by auto
  let ?st = "if c = CHR ''*'' then AfterQuant else AfterAtom"
  let ?item = "if c = CHR ''*'' then (AnyChar, Star) else (Lit c, One)"
  have "parse st acc (stars (escape (c # p))) = parse ?st (?item # acc) (stars (escape p))"
    by (subst stars_escape_Cons) (simp only: parse_char [OF c])
  also have "\<dots> = Some (rev (?item # acc) @ items p)"
    by (rule Cons.IH [OF p])
  also have "\<dots> = Some (rev acc @ items (c # p))"
    by (simp add: items_def)
  finally show ?case .
qed

lemma test_items: "\<not> list_ex is_lt v \<Longrightarrow> test (items p) v = glob p v"
  by (induction p v rule: glob.induct) (auto simp: items_def)

lemma glob_star: "glob ''*'' v"
  by (induction v) auto

lemma glob_plain: "CHR ''*'' \<notin> set p \<Longrightarrow> glob p v = (p = v)"
  by (induction p v rule: glob.induct) auto

lemma matchesWildcard_glob:
  assumes "CHR ''?'' \<notin> set p" "\<not> list_ex is_lt v"
  shows "matchesWildcard p v = Inr (glob p v)"
  using assms parse_pattern [OF assms(1), of NoRepeat "[]"]
  by (auto simp: matchesWildcard_def glob_star glob_plain test_items Let_def)

lemma matchesWildcard_examples:
  "matchesWildcard ''purchase.*'' ''purchase.refund'' = Inr True
   \<and> matchesWildcard ''purchase.*'' ''purchase'' = Inr False
   \<and> matchesWildcard ''*'' v = Inr True
   \<and> (CHR ''*'' \<notin> set p \<longrightarrow> matchesWildcard p v = Inr (p = v))"
proof -
  have "matchesWildcard ''purchase.*'' ''purchase.refund'' = Inr True" by code_simp
  moreover have "matchesWildcard ''purchase.*'' ''purchase'' = Inr False" by code_simp
  ultimately show ?thesis by (auto simp: matchesWildcard_def)
qed

text \<open>
  Claim C7.  The pattern \<^verbatim>\<open>*\<close> matches everything, a pattern without star matches
  itself only, and \<^verbatim>\<open>purchase.*\<close> matches \<^verbatim>\<open>purchase.refund\<close> but not \<^verbatim>\<open>purchase\<close>,
  as the two lemmas above show for patterns without question mark.  The question mark
  is not among the escaped characters: in \<^verbatim>\<open>a?*\<close> it makes the \<^verbatim>\<open>a\<close> optional, so the
  pattern matches \<^verbatim>\<open>b\<close>, which the pattern read as the claim says does not; and
  \<^verbatim>\<open>?*\<close> is no regular expression at all.
\<close>

theorem question_mark_not_escaped:
  "matchesWildcard ''a?*'' ''b'' = Inr True \<and> \<not> glob ''a?*'' ''b''
   \<and> stars (escape ''a?*'') = ''a?.*''
   \<and> matchesWildcard ''?*'' ''b'' = Inl (SyntaxError ''^?.*$'')"
  by code_simp

section \<open>Properties of the router\<close>

subsection \<open>Matching\<close>

text \<open>
  Claim C1.  When no pattern of the table is rejected as a regular expression,
  \<^verbatim>\<open>findMatchingRoutes\<close> returns the qualifying routes in order up to and including the
  first one that is not \<^verbatim>\<open>multi\<close>: the qualifying \<^verbatim>\<open>multi\<close> routes before it stay.  A
  qualifying \<^verbatim>\<open>multi\<close> route followed by a qualifying route that is not \<^verbatim>\<open>multi\<close> gives
  exactly these two, whatever comes after them.
\<close>

theorem findMatchingRoutes_short_circuit:
  assumes "\<forall>r \<in> set rs. \<exists>b. matchesWildcard (event_match r) eventName = Inr b"
  shows "findMatchingRoutes rs eventName m =
           Inr (takeWhile multi (filter (qualifies eventName m) rs)
                @ take 1 (dropWhile multi (filter (qualifies eventName m) rs)))
       \<and> (qualifies eventName m r1 \<and> multi r1 \<and> qualifies eventName m r2 \<and> \<not> multi r2
            \<longrightarrow> findMatchingRoutes (r1 # r2 # rest) eventName m = Inr [r1, r2])"
proof -
  have "findMatchingRoutes rs eventName m =
           Inr (takeWhile multi (filter (qualifies eventName m) rs)
                @ take 1 (dropWhile multi (filter (qualifies eventName m) rs)))"
    using assms
  proof (induction rs)
    case Nil
    then show ?case by simp
  next
    case (Cons r rs)
    then obtain b where b: "matchesWildcard (event_match r) eventName = Inr b" by auto
    from Cons have IH: "findMatchingRoutes rs eventName m =
           Inr (takeWhile multi (filter (qualifies eventName m) rs)
                @ take 1 (dropWhile multi (filter (qualifies eventName m) rs)))"
      by simp
    have q: "qualifies eventName m r \<longleftrightarrow> b \<and> accepts r m"
      using b by (auto simp: qualifies_def)
    show ?case
    proof (cases "qualifies eventName m r")
      case True
      with q b IH show ?thesis by (cases "multi r") auto
    next
      case False
      with q b IH show ?thesis by auto
    qed
  qed
  moreover have "qualifies eventName m r1 \<and> multi r1 \<and> qualifies eventName m r2 \<and> \<not> multi r2
            \<longrightarrow> findMatchingRoutes (r1 # r2 # rest) eventName m = Inr [r1, r2]"
    by (auto simp: qualifies_def)
  ultimately show ?thesis by blast
qed

theorem findMatchingRoutes_short_circuit_witness:
  "findMatchingRoutes
     [example_route ''R1'' True, example_route ''R2'' False, example_route ''R3'' True]
     ''purchase'' ''POST''
   = Inr [example_route ''R1'' True, example_route ''R2'' False]"
proof -
  let ?rs = "[example_route ''R1'' True, example_route ''R2'' False, example_route ''R3'' True]"
  have m: "matchesWildcard ''purchase'' ''purchase'' = Inr True" by code_simp
  then have h: "\<forall>r \<in> set ?rs. \<exists>b. matchesWildcard (event_match r) ''purchase'' = Inr b"
    by (auto simp: example_route_def)
  have q: "qualifies ''purchase'' ''POST'' (example_route n mu)" for n mu
    using m by (simp add: qualifies_def example_route_def accepts_def)
  from findMatchingRoutes_short_circuit [OF h, of "''POST''"] q
  show ?thesis by (simp add: example_route_def)
qed

text \<open>
  Claim C4.  A route without \<^verbatim>\<open>methods\<close> does not accept \<^verbatim>\<open>POST\<close>: the route of the
  README, whose pattern matches every event, is not found for a \<^verbatim>\<open>POST\<close> request, and
  the request is answered 405 with the header \<^verbatim>\<open>Allow: POST\<close>, since the list of allowed
  methods does take \<^verbatim>\<open>POST\<close> as the default.
\<close>

theorem route_without_methods_never_matches:
  "matchesWildcard (event_match readme_route) ''purchase'' = Inr True
   \<and> findMatchingRoutes [readme_route] ''purchase'' ''POST'' = Inr []
   \<and> validateRequestMethod post_request [readme_route]
       = Inl (''Method POST not allowed'', [''POST''])
   \<and> processRequest example_env \<lparr>routes = [readme_route], fallbackRoute = None\<rparr> post_request JNull
       = Inr \<lparr>code = 405, sent_headers = [(''Allow'', ''POST'')],
              body = JObj [(''error'', JStr ''Method Not Allowed'')]\<rparr>"
  by code_simp

subsection \<open>Dispatch\<close>

lemma and_then_Inl: "and_then (Inl x) f = Inl x"
  by (simp add: and_then_def)

lemma and_then_Inr: "and_then (Inr v) f = f v"
  by (simp add: and_then_def)

lemma logRequest_nothing: "logRequest e None None = Inr ()"
  by (simp add: logRequest_def sanitizePayload_def and_then_def)

lemma executeRoutes_return:
  "\<forall>r \<in> set rs. executeRoute e r req p meta = Inr (f r)
   \<Longrightarrow> executeRoutes e rs req p meta acc = Inr (acc @ map f rs)"
  by (induction rs arbitrary: acc) (auto simp: and_then_Inr)

lemma executeRoutes_throw:
  "executeRoute e r req p meta = Inl x \<Longrightarrow> executeRoutes e (r # rs) req p meta acc = Inl x"
  by (simp add: and_then_Inl)

lemma getEventName_valid: "getEventName payload = Some n \<Longrightarrow> isValidGA4Payload payload"
  by (auto simp: getEventName_def split: if_splits)

lemma dispatch_matched:
  assumes "validateRequestMethod req
             (routes rt @ (case fallbackRoute rt of None \<Rightarrow> [] | Some fb \<Rightarrow> [fb])) = Inr ()"
    and "(if req_method req = ''GET'' then Some (req_query_payload req) else req_body req) = Some p"
    and "getEventName (Some p) = Some eventName"
    and "findMatchingRoutes (routes rt) eventName (req_method req) = Inr ms"
  shows "dispatch e rt req meta =
           (if ms = [] then handleUnmatchedEvent e rt req p meta
            else and_then (executeRoutes e ms req p meta [])
                   (\<lambda>results.
                      let successCount = length (filter success results)
                      in if 0 < successCount then
                           Inr (json_response 200
                                  (JObj [(''status'', JStr ''success''),
                                         (''processed'', JNum (int successCount) 0)]))
                         else
                           Inr (json_response 500
                                  (error_body e
                                     (''All routes failed: '' @ join '', '' (errorMessages results))
                                     ''Internal Server Error''))))"
proof -
  have v: "isValidGA4Payload (Some p)"
    using assms(3) by (rule getEventName_valid)
  show ?thesis
    unfolding dispatch_def Let_def assms(1) assms(2)
    using v assms(3,4) by (simp add: and_then_Inr)
qed

lemma aggregate_when_routes_return:
  assumes "validateRequestMethod req
             (routes rt @ (case fallbackRoute rt of None \<Rightarrow> [] | Some fb \<Rightarrow> [fb])) = Inr ()"
    and "(if req_method req = ''GET'' then Some (req_query_payload req) else req_body req) = Some p"
    and "getEventName (Some p) = Some eventName"
    and "findMatchingRoutes (routes rt) eventName (req_method req) = Inr ms"
    and "ms \<noteq> []"
    and "\<forall>r \<in> set ms. executeRoute e r req p meta = Inr (f r)"
  shows "executeRoutes e ms req p meta [] = Inr (map f ms)
       \<and> processRequest e rt req meta =
           Inr (let n = length (filter (\<lambda>r. success (f r)) ms)
                in if 0 < n then
                     json_response 200
                       (JObj [(''status'', JStr ''success''), (''processed'', JNum (int n) 0)])
                   else
                     json_response 500
                       (error_body e
                          (''All routes failed: '' @ join '', '' (errorMessages (map f ms)))
                          ''Internal Server Error''))"
proof -
  have r: "executeRoutes e ms req p meta [] = Inr (map f ms)"
    using executeRoutes_return [OF assms(6), of "[]"] by simp
  have "dispatch e rt req meta =
           Inr (let n = length (filter (\<lambda>r. success (f r)) ms)
                in if 0 < n then
                     json_response 200
                       (JObj [(''status'', JStr ''success''), (''processed'', JNum (int n) 0)])
                   else
                     json_response 500
                       (error_body e
                          (''All routes failed: '' @ join '', '' (errorMessages (map f ms)))
                          ''Internal Server Error''))"
    using assms(5)
    by (simp add: dispatch_matched [OF assms(1-4)] r and_then_Inr Let_def filter_map o_def)
  then show ?thesis
    using r by (simp add: processRequest_def)
qed

lemma plain_body_example:
  "processRequest example_env
        \<lparr>routes = [keyed_route ''R1'', keyed_route ''R2''], fallbackRoute = None\<rparr>
        post_request JNull
       = Inr (json_response 200 (JObj [(''status'', JStr ''success''), (''processed'', JNum 2 0)]))
   \<and> processRequest (example_env\<lparr>debugMaxEntries := 0\<rparr>)
        \<lparr>routes = [keyed_route ''R1'', keyed_route ''R2''], fallbackRoute = None\<rparr>
        (post_request\<lparr>req_body := Some shadowing_body\<rparr>) JNull
       = Inr (json_response 500 (JObj [(''error'', JStr ''Internal Server Error'')]))"
  by code_simp

text \<open>
  Claim C8.  Every matched route is to be executed whatever became of the routes before
  it, each failure staying with its route, and the response is to be 200 with the number
  of routes that succeeded, or 500 when all failed.  The lemmas above show it for routes
  whose execution returns.  But the debug logger throws while it sanitises a payload that
  has an own entry \<^verbatim>\<open>hasOwnProperty\<close>, also when \<^verbatim>\<open>executeRoute\<close> and \<^verbatim>\<open>processRequest\<close>
  call it from their \<^verbatim>\<open>catch\<close> blocks.  For the body
  \<^verbatim>\<open>{"events":[{"name":"purchase"}],"hasOwnProperty":1}\<close> and two \<^verbatim>\<open>multi\<close> routes, the copy of
  the payload throws in the first route and the handler that catches it throws in its
  turn; the second route is never executed and the request gets no response.
\<close>

theorem sanitizer_throw_aborts_sibling_routes:
  "findMatchingRoutes [keyed_route ''R1'', keyed_route ''R2''] ''purchase'' ''POST''
     = Inr [keyed_route ''R1'', keyed_route ''R2'']
   \<and> deepClone shadowing_body = Inl not_a_function
   \<and> logRequest example_env (Some shadowing_body) None = Inl not_a_function
   \<and> executeRoute example_env (keyed_route ''R1'')
        (post_request\<lparr>req_body := Some shadowing_body\<rparr>) shadowing_body JNull
       = Inl not_a_function
   \<and> executeRoutes example_env [keyed_route ''R1'', keyed_route ''R2'']
        (post_request\<lparr>req_body := Some shadowing_body\<rparr>) shadowing_body JNull []
       = Inl not_a_function
   \<and> processRequest example_env
        \<lparr>routes = [keyed_route ''R1'', keyed_route ''R2''], fallbackRoute = None\<rparr>
        (post_request\<lparr>req_body := Some shadowing_body\<rparr>) JNull
       = Inl not_a_function"
  by code_simp

text \<open>
  Claim C9, as it is stated for every valid payload that matches no regular route, does
  not hold of a request that the method gate rejects: a \<^verbatim>\<open>POST\<close> of the event \<^verbatim>\<open>signup\<close>,
  to a table without fallback whose one route matches \<^verbatim>\<open>purchase\<close> and lists \<^verbatim>\<open>GET\<close> only,
  is answered 405 and not 200.
\<close>

theorem unmatched_event_behind_method_gate:
  "isValidGA4Payload (Some signup_body)
   \<and> getEventName (Some signup_body) = Some ''signup''
   \<and> matchesWildcard (event_match get_only_route) ''signup'' = Inr False
   \<and> findMatchingRoutes [get_only_route] ''signup'' ''POST'' = Inr []
   \<and> processRequest example_env \<lparr>routes = [get_only_route], fallbackRoute = None\<rparr>
        (post_request\<lparr>req_body := Some signup_body\<rparr>) JNull
       = Inr \<lparr>code = 405, sent_headers = [(''Allow'', ''GET'')],
              body = JObj [(''error'', JStr ''Method Not Allowed'')]\<rparr>
   \<and> processRequest example_env \<lparr>routes = [get_only_route], fallbackRoute = None\<rparr>
        (post_request\<lparr>req_body := Some signup_body\<rparr>) JNull
       \<noteq> Inr (json_response 200
                (JObj [(''status'', JStr ''unmatched''), (''event'', JStr ''signup'')]))"
  by code_simp

text \<open>
  Claim C9, amended.  For a request that passed the method gate with a valid payload for
  which \<^verbatim>\<open>findMatchingRoutes\<close> returns no route: when there is a fallback route and its
  execution returns a result, the response is 200 if the result is a success and 500 if
  it is not; when there is no fallback route and the debug logger records the payload,
  the response is 200 with \<^verbatim>\<open>{status: "unmatched", event: name}\<close>.
\<close>

theorem unmatched_event_response:
  assumes "validateRequestMethod req
             (routes rt @ (case fallbackRoute rt of None \<Rightarrow> [] | Some fb \<Rightarrow> [fb])) = Inr ()"
    and "(if req_method req = ''GET'' then Some (req_query_payload req) else req_body req) = Some p"
    and "getEventName (Some p) = Some eventName"
    and "findMatchingRoutes (routes rt) eventName (req_method req) = Inr []"
  shows "(\<forall>fb res. fallbackRoute rt = Some fb \<and> executeRoute e fb req p meta = Inr res
            \<longrightarrow> processRequest e rt req meta =
                  Inr (if success res then
                         json_response 200
                           (JObj [(''status'', JStr ''success''), (''processed'', JNum 1 0),
                                  (''fallback'', JBool True)])
                       else
                         json_response 500
                           (error_body e
                              (''Fallback route failed: ''
                                 @ (case error res of None \<Rightarrow> ''undefined'' | Some m \<Rightarrow> m))
                              ''Internal Server Error''))
                \<and> code (if success res then
                         json_response 200
                           (JObj [(''status'', JStr ''success''), (''processed'', JNum 1 0),
                                  (''fallback'', JBool True)])
                       else
                         json_response 500
                           (error_body e
                              (''Fallback route failed: ''
                                 @ (case error res of None \<Rightarrow> ''undefined'' | Some m \<Rightarrow> m))
                              ''Internal Server Error'')) = (if success res then 200 else 500))
       \<and> (fallbackRoute rt = None \<and> logRequest e (Some p) None = Inr ()
            \<longrightarrow> processRequest e rt req meta =
                  Inr (json_response 200
                         (JObj [(''status'', JStr ''unmatched''), (''event'', JStr eventName)])))"
proof -
  have d: "dispatch e rt req meta = handleUnmatchedEvent e rt req p meta"
    by (simp add: dispatch_matched [OF assms])
  show ?thesis
    using assms(3)
    by (auto simp: processRequest_def d handleUnmatchedEvent_def and_then_Inr Let_def
          json_response_def)
qed

theorem unmatched_event_response_witness:
  "processRequest example_env \<lparr>routes = [keyed_route ''R1''], fallbackRoute = None\<rparr>
     (post_request\<lparr>req_body := Some signup_body\<rparr>) JNull
   = Inr (json_response 200 (JObj [(''status'', JStr ''unmatched''), (''event'', JStr ''signup'')]))
   \<and> processRequest example_env
       \<lparr>routes = [keyed_route ''R1''], fallbackRoute = Some (keyed_route ''catch-all'')\<rparr>
       (post_request\<lparr>req_body := Some signup_body\<rparr>) JNull
     = Inr (json_response 200
              (JObj [(''status'', JStr ''success''), (''processed'', JNum 1 0),
                     (''fallback'', JBool True)]))"
proof -
  let ?req = "post_request\<lparr>req_body := Some signup_body\<rparr>"
  let ?rt = "\<lparr>routes = [keyed_route ''R1''], fallbackRoute = None\<rparr>"
  let ?rtf = "\<lparr>routes = [keyed_route ''R1''], fallbackRoute = Some (keyed_route ''catch-all'')\<rparr>"
  let ?res = "\<lparr>success = True, error = None, route = Some ''catch-all'', status = Some 200\<rparr>"
  have 0: "getEventName (Some signup_body) = Some ''signup''" by code_simp
  have 1: "validateRequestMethod ?req
             (routes ?rt @ (case fallbackRoute ?rt of None \<Rightarrow> [] | Some fb \<Rightarrow> [fb])) = Inr ()"
    by code_simp
  have 6: "validateRequestMethod ?req
             (routes ?rtf @ (case fallbackRoute ?rtf of None \<Rightarrow> [] | Some fb \<Rightarrow> [fb])) = Inr ()"
    by code_simp
  have 2: "(if req_method ?req = ''GET'' then Some (req_query_payload ?req) else req_body ?req)
           = Some signup_body"
    by code_simp
  have 3: "findMatchingRoutes (routes ?rt) ''signup'' (req_method ?req) = Inr []"
    by code_simp
  have 7: "findMatchingRoutes (routes ?rtf) ''signup'' (req_method ?req) = Inr []"
    by code_simp
  have 4: "logRequest example_env (Some signup_body) None = Inr ()" by code_simp
  have 5: "executeRoute example_env (keyed_route ''catch-all'') ?req signup_body JNull = Inr ?res"
    by code_simp
  from unmatched_event_response [OF 1 2 0 3, of example_env JNull]
    unmatched_event_response [OF 6 2 0 7, of example_env JNull] 4 5
  show ?thesis by simp
qed

end
